theory Spec2Isabelle
  imports Complex_Main "HOL-Library.Log_Nat" "HOL-Library.Signed_Division"
begin

section \<open>C arithmetic used by main.c\<close>

subsection \<open>The type float\<close>

text \<open>
  The fields \<open>x\<close>, \<open>y\<close>, \<open>dx\<close>, \<open>dy\<close> of main.c are C \<open>float\<close>s. A float is
  modelled as an IEEE 754 binary32 value: a rational that is exactly representable
  (24 significant bits, exponents from -126 to 127), an infinity, or NaN. The two
  signed zeros are one value: main.c never divides, so their sign is never observed.
  An arithmetic operation computes the exact rational result and rounds it to the
  nearest representable value, ties to the even significand.
\<close>

datatype float = Finite rat | PosInf | NegInf | NaN

definition round_half_even :: "rat \<Rightarrow> int" where
  "round_half_even q =
     (let f = \<lfloor>q\<rfloor>; d = q - of_int f
      in if d < 1 / 2 then f
         else if 1 / 2 < d then f + 1
         else if even f then f else f + 1)"

text \<open>\<open>ilog2 q\<close> is the exponent \<open>e\<close> with \<open>2 powi e \<le> \<bar>q\<bar> < 2 powi (e + 1)\<close>, for \<open>q \<noteq> 0\<close>.\<close>

definition ilog2 :: "rat \<Rightarrow> int" where
  "ilog2 q =
     (let d = bitlen \<bar>fst (quotient_of q)\<bar> - bitlen (snd (quotient_of q))
      in if 2 powi d \<le> \<bar>q\<bar> then d else d - 1)"

definition round_float :: "rat \<Rightarrow> float" where
  "round_float q =
     (if q = 0 then Finite 0
      else
        let e = max (ilog2 q) (- 126);
            ulp = 2 powi (e - 23);
            r = of_int (round_half_even (q / ulp)) * ulp
        in if 2 ^ 128 \<le> r then PosInf
           else if r \<le> - (2 ^ 128) then NegInf
           else Finite r)"

fun fadd :: "float \<Rightarrow> float \<Rightarrow> float" where
  "fadd (Finite a) (Finite b) = round_float (a + b)"
| "fadd NaN _ = NaN"
| "fadd _ NaN = NaN"
| "fadd PosInf NegInf = NaN"
| "fadd NegInf PosInf = NaN"
| "fadd PosInf _ = PosInf"
| "fadd _ PosInf = PosInf"
| "fadd NegInf _ = NegInf"
| "fadd _ NegInf = NegInf"

fun fneg :: "float \<Rightarrow> float" where
  "fneg (Finite a) = Finite (- a)"
| "fneg PosInf = NegInf"
| "fneg NegInf = PosInf"
| "fneg NaN = NaN"

definition fsub :: "float \<Rightarrow> float \<Rightarrow> float" where
  "fsub a b = fadd a (fneg b)"

text \<open>The comparison \<open>a < b\<close> of two floats; every comparison with NaN is false.\<close>

fun flt :: "float \<Rightarrow> float \<Rightarrow> bool" where
  "flt NaN _ = False"
| "flt _ NaN = False"
| "flt (Finite a) (Finite b) = (a < b)"
| "flt _ NegInf = False"
| "flt PosInf _ = False"
| "flt NegInf _ = True"
| "flt _ PosInf = True"

definition fgt :: "float \<Rightarrow> float \<Rightarrow> bool" where
  "fgt a b = flt b a"

text \<open>\<open>!f\<close> for a float \<open>f\<close>: true exactly when \<open>f\<close> compares equal to zero.\<close>

definition fis_zero :: "float \<Rightarrow> bool" where
  "fis_zero a = (a = Finite 0)"

definition INT_MIN :: int where
  "INT_MIN = - (2 ^ 31)"

definition INT_MAX :: int where
  "INT_MAX = 2 ^ 31 - 1"

text \<open>
  The cast \<open>(int)f\<close> truncates towards zero. The C standard leaves it undefined when
  the truncated value is not an \<open>int\<close> (also for an infinity or NaN): that is \<open>None\<close>.
\<close>

fun float_to_int :: "float \<Rightarrow> int option" where
  "float_to_int (Finite a) =
     (let t = (if 0 \<le> a then \<lfloor>a\<rfloor> else \<lceil>a\<rceil>)
      in if INT_MIN \<le> t \<and> t \<le> INT_MAX then Some t else None)"
| "float_to_int _ = None"

section \<open>Data of main.c\<close>

text \<open>
  \<open>Man\<close> and \<open>Bullet\<close> are the two structs. The members \<open>x\<close>, \<open>y\<close>, \<open>dy\<close>, \<open>dx\<close> carry
  the struct's name as a prefix here. The members \<open>life\<close> and \<open>name\<close> of \<open>Man\<close> are
  never read or written by main.c and are left out. The flags are C \<open>int\<close>s, tested
  for being nonzero. C \<open>int\<close> is modelled by \<open>int\<close>; \<open>%\<close> is \<open>smod\<close>, the remainder of
  the division that truncates towards zero. An \<open>int\<close> computation that overflows is
  undefined in C and outside the model (\<open>globalTime\<close> would overflow after \<open>2 ^ 31\<close>
  ticks). A texture pointer is a handle.
\<close>

type_synonym texture = nat

record Man =
  man_x :: float
  man_y :: float
  man_dy :: float
  currentSprite :: int
  walking :: int
  facingLeft :: int
  shooting :: int
  visible :: int
  alive :: int
  sheetTexture :: texture

record Bullet =
  bullet_x :: float
  bullet_y :: float
  bullet_dx :: float

definition MAX_BULLETS :: nat where
  "MAX_BULLETS = 1000"

text \<open>
  The globals of main.c, together with the \<open>Man\<close> that \<open>main\<close> passes by pointer to
  every function. \<open>bullets\<close> is the array of \<open>MAX_BULLETS\<close> pointers: \<open>None\<close> is
  \<open>NULL\<close>, \<open>Some b\<close> a pointer to a heap cell of its own holding \<open>b\<close> (every cell
  comes from its own \<open>malloc\<close>, so no two slots alias).
\<close>

record world =
  man :: Man
  enemy :: Man
  bullets :: "Bullet option list"
  globalTime :: int
  bulletTexture :: texture
  backgroundTexture :: texture

section \<open>The projectile pool: addBullet and removeBullet\<close>

text \<open>
  \<open>addBullet\<close>, lines 33-50. The \<open>for\<close> loop with its \<open>break\<close> looks for the first
  index below \<open>MAX_BULLETS\<close> whose slot is \<open>NULL\<close>; \<open>found\<close> stays -1 when there is
  none. \<open>malloc\<close> is taken to succeed.
\<close>

definition addBullet_found :: "Bullet option list \<Rightarrow> int" where
  "addBullet_found bs =
     (case find (\<lambda>i. bs ! i = None) [0..<MAX_BULLETS] of
        None \<Rightarrow> - 1
      | Some i \<Rightarrow> int i)"

definition addBullet :: "float \<Rightarrow> float \<Rightarrow> float \<Rightarrow> Bullet option list \<Rightarrow> Bullet option list" where
  "addBullet x y dx bs =
     (let found = addBullet_found bs
      in if 0 \<le> found
         then bs[nat found := Some \<lparr>bullet_x = x, bullet_y = y, bullet_dx = dx\<rparr>]
         else bs)"

text \<open>
  \<open>removeBullet\<close>, lines 52-57. Every call in main.c passes an index of the array,
  \<open>0 \<le> i < MAX_BULLETS\<close>; the function has no failure path of its own.
\<close>

definition removeBullet :: "nat \<Rightarrow> Bullet option list \<Rightarrow> Bullet option list" where
  "removeBullet i bs = (if bs ! i \<noteq> None then bs[i := None] else bs)"

text \<open>The number of live projectiles: the slots that are not \<open>NULL\<close>.\<close>

definition live :: "Bullet option list \<Rightarrow> nat" where
  "live bs = length (filter (\<lambda>s. s \<noteq> None) bs)"

text \<open>A sequence of pool operations, run from the array as C initialises it (all \<open>NULL\<close>).\<close>

datatype pool_op = Spawn float float float | Despawn nat

fun pool_apply :: "pool_op \<Rightarrow> Bullet option list \<Rightarrow> Bullet option list" where
  "pool_apply (Spawn x y dx) bs = addBullet x y dx bs"
| "pool_apply (Despawn i) bs = removeBullet i bs"

text \<open>An operation is well formed when a despawn names a slot of the array.\<close>

definition pool_op_ok :: "pool_op \<Rightarrow> bool" where
  "pool_op_ok op = (case op of Spawn x y dx \<Rightarrow> True | Despawn i \<Rightarrow> i < MAX_BULLETS)"

definition bullets_init :: "Bullet option list" where
  "bullets_init = replicate MAX_BULLETS None"

definition pool_run :: "pool_op list \<Rightarrow> Bullet option list" where
  "pool_run ops = fold pool_apply ops bullets_init"

section \<open>processEvents\<close>

text \<open>
  What the SDL calls hand to \<open>processEvents\<close>: the queued events, as far as the
  \<open>switch\<close> tells them apart, and the keyboard snapshot of \<open>SDL_GetKeyboardState\<close>
  at the five scancodes read (\<open>True\<close> for a nonzero entry).
\<close>

datatype keysym = SDLK_ESCAPE | SDLK_other

datatype event = SDL_WINDOWEVENT_CLOSE | SDL_KEYDOWN keysym | SDL_QUIT | SDL_other

record keystate =
  SCANCODE_LEFT :: bool
  SCANCODE_RIGHT :: bool
  SCANCODE_SPACE :: bool
  SCANCODE_UP :: bool
  SCANCODE_DOWN :: bool

text \<open>
  Lines 64-89, the \<open>while (SDL_PollEvent(&event))\<close> loop over the queue. \<open>window\<close>
  says whether the local pointer \<open>window\<close> is not \<open>NULL\<close>.
\<close>

fun pollEvents :: "bool \<Rightarrow> int \<Rightarrow> event list \<Rightarrow> int" where
  "pollEvents window done [] = done"
| "pollEvents window done (SDL_WINDOWEVENT_CLOSE # es) =
     (if window then pollEvents False 1 es else pollEvents window done es)"
| "pollEvents window done (SDL_KEYDOWN SDLK_ESCAPE # es) = pollEvents window 1 es"
| "pollEvents window done (SDL_KEYDOWN SDLK_other # es) = pollEvents window done es"
| "pollEvents window done (SDL_QUIT # es) = pollEvents window 1 es"
| "pollEvents window done (SDL_other # es) = pollEvents window done es"

text \<open>Lines 98-101 and 107-110: the walk frame advances when \<open>globalTime % 6 == 0\<close>.\<close>

definition walkFrame :: "int \<Rightarrow> Man \<Rightarrow> Man" where
  "walkFrame t m =
     (if t smod 6 = 0 then m\<lparr>currentSprite := (currentSprite m + 1) smod 4\<rparr> else m)"

text \<open>Lines 92-115: horizontal movement, unless the man is shooting.\<close>

definition processMove :: "keystate \<Rightarrow> world \<Rightarrow> world" where
  "processMove state w =
     (if shooting (man w) = 0 then
        if SCANCODE_LEFT state then
          w\<lparr>man := walkFrame (globalTime w)
              ((man w)\<lparr>man_x := fsub (man_x (man w)) (Finite 3), walking := 1, facingLeft := 1\<rparr>)\<rparr>
        else if SCANCODE_RIGHT state then
          w\<lparr>man := walkFrame (globalTime w)
              ((man w)\<lparr>man_x := fadd (man_x (man w)) (Finite 3), walking := 1, facingLeft := 0\<rparr>)\<rparr>
        else w\<lparr>man := (man w)\<lparr>walking := 0, currentSprite := 4\<rparr>\<rparr>
      else w)"

text \<open>Lines 120-131: on a tick with \<open>globalTime % 6 == 0\<close> the frame toggles and a bullet is added.\<close>

definition fireShot :: "world \<Rightarrow> world" where
  "fireShot w =
     (let m = (man w)\<lparr>currentSprite := (if currentSprite (man w) = 4 then 5 else 4)\<rparr>
      in w\<lparr>man := m,
           bullets :=
             (if facingLeft m = 0
              then addBullet (fadd (man_x m) (Finite 35)) (fadd (man_y m) (Finite 20)) (Finite 3)
                     (bullets w)
              else addBullet (fadd (man_x m) (Finite 5)) (fadd (man_y m) (Finite 20))
                     (Finite (- 3)) (bullets w))\<rparr>)"

text \<open>Lines 117-138: shooting, unless the man is walking.\<close>

definition processFire :: "keystate \<Rightarrow> world \<Rightarrow> world" where
  "processFire state w =
     (if walking (man w) = 0 then
        if SCANCODE_SPACE state then
          (let w1 = (if globalTime w smod 6 = 0 then fireShot w else w)
           in w1\<lparr>man := (man w1)\<lparr>shooting := 1\<rparr>\<rparr>)
        else w\<lparr>man := (man w)\<lparr>currentSprite := 4, shooting := 0\<rparr>\<rparr>
      else w)"

text \<open>Lines 140-145: the jump; the body of the test of the down key is a comment.\<close>

definition processJump :: "keystate \<Rightarrow> world \<Rightarrow> world" where
  "processJump state w =
     (if SCANCODE_UP state \<and> fis_zero (man_dy (man w))
      then w\<lparr>man := (man w)\<lparr>man_dy := Finite (- 8)\<rparr>\<rparr>
      else w)"

definition processEvents :: "bool \<Rightarrow> event list \<Rightarrow> keystate \<Rightarrow> world \<Rightarrow> int \<times> world" where
  "processEvents window evs state w =
     (pollEvents window 0 evs, processJump state (processFire state (processMove state w)))"

section \<open>updateLogic\<close>

text \<open>Lines 219-224: the man's vertical motion.\<close>

definition updateMan :: "Man \<Rightarrow> Man" where
  "updateMan m =
     (let m1 = m\<lparr>man_y := fadd (man_y m) (man_dy m)\<rparr>;
          m2 = m1\<lparr>man_dy := fadd (man_dy m1) (Finite (1 / 2))\<rparr>
      in if fgt (man_y m2) (Finite 60) then m2\<lparr>man_y := Finite 60, man_dy := Finite 0\<rparr> else m2)"

text \<open>Line 228, the collision test of lines 231-232, and the test of line 236.\<close>

definition moveBullet :: "Bullet \<Rightarrow> Bullet" where
  "moveBullet b = b\<lparr>bullet_x := fadd (bullet_x b) (bullet_dx b)\<rparr>"

definition collides :: "Bullet \<Rightarrow> Man \<Rightarrow> bool" where
  "collides b e \<longleftrightarrow>
     fgt (bullet_x b) (man_x e) \<and> flt (bullet_x b) (fadd (man_x e) (Finite 40)) \<and>
     fgt (bullet_y b) (man_y e) \<and> flt (bullet_y b) (fadd (man_y e) (Finite 50))"

definition outOfRange :: "Bullet \<Rightarrow> bool" where
  "outOfRange b \<longleftrightarrow> flt (bullet_x b) (Finite (- 1000)) \<or> fgt (bullet_x b) (Finite 1000)"

text \<open>Lines 227-238: the body of the loop over the slots, at index \<open>i\<close>.\<close>

definition updateBullet :: "nat \<Rightarrow> world \<Rightarrow> world" where
  "updateBullet i w =
     (case bullets w ! i of
        None \<Rightarrow> w
      | Some b \<Rightarrow>
          let b1 = moveBullet b;
              w1 = w\<lparr>bullets := (bullets w)[i := Some b1]\<rparr>;
              w2 = (if collides b1 (enemy w1) then w1\<lparr>enemy := (enemy w1)\<lparr>alive := 0\<rparr>\<rparr> else w1)
          in if outOfRange b1 then w2\<lparr>bullets := removeBullet i (bullets w2)\<rparr> else w2)"

definition updateBullets :: "world \<Rightarrow> world" where
  "updateBullets w = fold updateBullet [0..<MAX_BULLETS] w"

text \<open>Lines 240-250: the enemy's death animation.\<close>

definition updateEnemy :: "int \<Rightarrow> Man \<Rightarrow> Man" where
  "updateEnemy t e =
     (if alive e = 0 \<and> t smod 6 = 0 then
        if currentSprite e < 6 then e\<lparr>currentSprite := 6\<rparr>
        else if 6 \<le> currentSprite e then
          (let e1 = e\<lparr>currentSprite := currentSprite e + 1\<rparr>
           in if 7 < currentSprite e1 then e1\<lparr>visible := 0, currentSprite := 7\<rparr> else e1)
        else e
      else e)"

definition updateLogic :: "world \<Rightarrow> world" where
  "updateLogic w =
     (let w1 = w\<lparr>man := updateMan (man w)\<rparr>;
          w2 = updateBullets w1;
          w3 = w2\<lparr>enemy := updateEnemy (globalTime w2) (enemy w2)\<rparr>
      in w3\<lparr>globalTime := globalTime w3 + 1\<rparr>)"

section \<open>doRender\<close>

text \<open>
  \<open>doRender\<close> changes no game state; what it does is the sequence of SDL calls it
  makes, with their arguments. \<open>SDL_RenderCopyEx\<close> is always called with angle 0 and
  centre \<open>NULL\<close>; its last argument here is the flip. The result is \<open>None\<close> when a
  cast of a coordinate to \<open>int\<close> is undefined.
\<close>

record SDL_Rect =
  rect_x :: int
  rect_y :: int
  rect_w :: int
  rect_h :: int

datatype sdl_call =
    SDL_SetRenderDrawColor int int int int
  | SDL_RenderClear
  | SDL_RenderCopy texture "SDL_Rect option" "SDL_Rect option"
  | SDL_RenderCopyEx texture SDL_Rect SDL_Rect int
  | SDL_RenderPresent

definition calls_then :: "sdl_call list option \<Rightarrow> sdl_call list option \<Rightarrow> sdl_call list option" where
  "calls_then a b =
     (case a of None \<Rightarrow> None
      | Some xs \<Rightarrow> (case b of None \<Rightarrow> None | Some ys \<Rightarrow> Some (xs @ ys)))"

text \<open>Lines 165-180, the block under the comment \<open>warrior\<close>.\<close>

definition renderWarrior :: "Man \<Rightarrow> sdl_call list option" where
  "renderWarrior m =
     (if visible m \<noteq> 0 then
        (case float_to_int (man_x m) of
           None \<Rightarrow> None
         | Some px \<Rightarrow>
             (case float_to_int (man_y m) of
                None \<Rightarrow> None
              | Some py \<Rightarrow>
                  Some [SDL_RenderCopyEx (sheetTexture m)
                          \<lparr>rect_x = 40 * currentSprite m, rect_y = 0, rect_w = 40, rect_h = 50\<rparr>
                          \<lparr>rect_x = px, rect_y = py, rect_w = 40, rect_h = 50\<rparr>
                          (facingLeft m)]))
      else Some [])"

text \<open>Lines 183-199, the block under the comment \<open>enemy\<close>.\<close>

definition renderEnemy :: "Man \<Rightarrow> sdl_call list option" where
  "renderEnemy e =
     (if visible e \<noteq> 0 then
        (case float_to_int (man_x e) of
           None \<Rightarrow> None
         | Some px \<Rightarrow>
             (case float_to_int (man_y e) of
                None \<Rightarrow> None
              | Some py \<Rightarrow>
                  Some [SDL_RenderCopyEx (sheetTexture e)
                          \<lparr>rect_x = 40 * 40 * currentSprite e, rect_y = 0, rect_w = 40, rect_h = 50\<rparr>
                          \<lparr>rect_x = px, rect_y = py, rect_w = 40, rect_h = 50\<rparr>
                          (facingLeft e)]))
      else Some [])"

text \<open>Lines 202-211: the body of the loop over the slots.\<close>

definition renderBullet :: "texture \<Rightarrow> Bullet option \<Rightarrow> sdl_call list option" where
  "renderBullet tex s =
     (case s of
        None \<Rightarrow> Some []
      | Some b \<Rightarrow>
          (case float_to_int (bullet_x b) of
             None \<Rightarrow> None
           | Some px \<Rightarrow>
               (case float_to_int (bullet_y b) of
                  None \<Rightarrow> None
                | Some py \<Rightarrow>
                    Some [SDL_RenderCopy tex None
                            (Some \<lparr>rect_x = px, rect_y = py, rect_w = 8, rect_h = 8\<rparr>)])))"

definition renderBullets :: "world \<Rightarrow> sdl_call list option" where
  "renderBullets w =
     fold (\<lambda>i acc. calls_then acc (renderBullet (bulletTexture w) (bullets w ! i)))
       [0..<MAX_BULLETS] (Some [])"

definition doRender :: "world \<Rightarrow> sdl_call list option" where
  "doRender w =
     calls_then
       (Some [SDL_SetRenderDrawColor 0 0 255 255, SDL_RenderClear,
              SDL_SetRenderDrawColor 255 255 255 255,
              SDL_RenderCopy (backgroundTexture w) None None])
       (calls_then (renderWarrior (man w))
          (calls_then (renderEnemy (enemy w))
             (calls_then (renderBullets w) (Some [SDL_RenderPresent]))))"

section \<open>main\<close>

text \<open>
  The state when \<open>main\<close> enters its loop (lines 267-279 and 336). \<open>man\<close> is a local
  of \<open>main\<close>: its members \<open>dy\<close>, \<open>walking\<close> and \<open>shooting\<close> are never initialised, so
  their values are parameters here. \<open>enemy\<close>, \<open>bullets\<close> and \<open>globalTime\<close> are
  globals, zero where \<open>main\<close> assigns nothing. The four textures are what the image
  loader returned.
\<close>

definition main_init :: "float \<Rightarrow> int \<Rightarrow> int \<Rightarrow> texture \<Rightarrow> texture \<Rightarrow> texture \<Rightarrow> texture \<Rightarrow> world" where
  "main_init dy0 walking0 shooting0 manTex enemyTex bgTex bulTex =
     \<lparr>man = \<lparr>man_x = Finite 50, man_y = Finite 0, man_dy = dy0, currentSprite = 4,
             walking = walking0, facingLeft = 0, shooting = shooting0, visible = 1,
             alive = 1, sheetTexture = manTex\<rparr>,
      enemy = \<lparr>man_x = Finite 250, man_y = Finite 60, man_dy = Finite 0, currentSprite = 4,
               walking = 0, facingLeft = 1, shooting = 0, visible = 1,
               alive = 1, sheetTexture = enemyTex\<rparr>,
      bullets = bullets_init,
      globalTime = 0,
      bulletTexture = bulTex,
      backgroundTexture = bgTex\<rparr>"

text \<open>
  One pass through the body of the loop, lines 341-344, as far as the state goes, and
  a run of consecutive passes, one per sampled input.
\<close>

definition frame :: "bool \<Rightarrow> event list \<times> keystate \<Rightarrow> world \<Rightarrow> world" where
  "frame window inp w = updateLogic (snd (processEvents window (fst inp) (snd inp) w))"

definition frames :: "bool \<Rightarrow> (event list \<times> keystate) list \<Rightarrow> world \<Rightarrow> world" where
  "frames window inps w = fold (frame window) inps w"

section \<open>Auxiliary notions for the proofs\<close>

text \<open>
  What one pass of the loop of \<open>updateLogic\<close> leaves in a slot, and whether the
  bullet of a slot, once moved, is inside the enemy's box.
\<close>

definition slot_after :: "Bullet option \<Rightarrow> Bullet option" where
  "slot_after s =
     (case s of None \<Rightarrow> None
      | Some b \<Rightarrow> if outOfRange (moveBullet b) then None else Some (moveBullet b))"

definition slot_hits :: "Man \<Rightarrow> Bullet option \<Rightarrow> bool" where
  "slot_hits e s = (case s of None \<Rightarrow> False | Some b \<Rightarrow> collides (moveBullet b) e)"

text \<open>
  A state at the entry of the loop of \<open>main\<close>: the members that \<open>main\<close> leaves
  uninitialised are zero, and the textures are the handles 0 to 3.
\<close>

definition main_world :: world where
  "main_world = main_init (Finite 0) 0 0 0 1 2 3"





text \<open>
  The keyboard with only the up key held, and the state in which the man stands on
  the ground: position 60, velocity 0.
\<close>

definition upKeys :: keystate where
  "upKeys = \<lparr>SCANCODE_LEFT = False, SCANCODE_RIGHT = False, SCANCODE_SPACE = False,
            SCANCODE_UP = True, SCANCODE_DOWN = False\<rparr>"

definition grounded_world :: world where
  "grounded_world = main_world\<lparr>man := (man main_world)\<lparr>man_y := Finite 60\<rparr>\<rparr>"


text \<open>The scenario of C2, set in the state at the entry of the loop of \<open>main\<close>.\<close>

definition scenario_world :: world where
  "scenario_world =
     main_world\<lparr>bullets := addBullet (Finite 300) (Finite 20) (Finite 3) bullets_init\<rparr>"

section \<open>Properties of the rounding to float\<close>

lemma round_half_even_of_int [simp]: "round_half_even (of_int n) = n"
  by (simp add: round_half_even_def)


lemma ilog2_lower:
  assumes "q \<noteq> 0"
  shows "2 powi (ilog2 q) \<le> \<bar>q\<bar>"
proof -
  obtain a b where ab: "quotient_of q = (a, b)" by (cases "quotient_of q")
  then have b: "0 < b" and q: "q = of_int a / of_int b"
    using quotient_of_denom_pos quotient_of_div by auto
  from q assms have a: "0 < \<bar>a\<bar>" by auto
  define d where "d = bitlen \<bar>a\<bar> - bitlen b"
  have la: "2 ^ nat (bitlen \<bar>a\<bar> - 1) \<le> \<bar>a\<bar>" using bitlen_bounds [OF a] by simp
  have lb: "b < 2 ^ nat (bitlen b)" using bitlen_bounds [OF b] by simp
  have ba: "1 \<le> bitlen \<bar>a\<bar>" using a by (simp add: bitlen_alt_def)
  have bb: "0 \<le> bitlen b" by (rule bitlen_nonneg)
  have dd: "d - 1 = (bitlen \<bar>a\<bar> - 1) - bitlen b" by (simp add: d_def)
  have "(2::rat) powi (d - 1) = 2 powi (bitlen \<bar>a\<bar> - 1) / 2 powi (bitlen b)"
    unfolding dd by (rule power_int_diff) simp
  also have "\<dots> = 2 ^ nat (bitlen \<bar>a\<bar> - 1) / 2 ^ nat (bitlen b)"
    using ba bb by (simp add: power_int_def)
  also have "\<dots> \<le> of_int \<bar>a\<bar> / of_int b"
  proof (rule frac_le)
    show "(2::rat) ^ nat (bitlen \<bar>a\<bar> - 1) \<le> of_int \<bar>a\<bar>"
      using la by (metis of_int_le_iff of_int_numeral of_int_power)
    show "(of_int b :: rat) \<le> 2 ^ nat (bitlen b)"
      using lb by (metis less_imp_le of_int_le_iff of_int_numeral of_int_power)
  qed (use b in auto)
  also have "\<dots> = \<bar>q\<bar>" using b by (simp add: q)
  finally have "2 powi (d - 1) \<le> \<bar>q\<bar>" .
  then show ?thesis
    using ab by (simp add: ilog2_def d_def Let_def)
qed

lemma ilog2_le:
  assumes "q \<noteq> 0" "\<bar>q\<bar> \<le> 2 ^ n"
  shows "ilog2 q \<le> int n"
proof -
  have "(2::rat) powi (ilog2 q) \<le> 2 powi (int n)"
    using ilog2_lower [OF assms(1)] assms(2) by simp
  then show ?thesis by (rule power_int_le_imp_le_exp [rotated]) simp_all
qed

lemma ilog2_upper:
  assumes "q \<noteq> 0"
  shows "\<bar>q\<bar> < 2 powi (ilog2 q + 1)"
proof -
  obtain a b where ab: "quotient_of q = (a, b)" by (cases "quotient_of q")
  then have b: "0 < b" and q: "q = of_int a / of_int b"
    using quotient_of_denom_pos quotient_of_div by auto
  from q assms have a: "0 < \<bar>a\<bar>" by auto
  define d where "d = bitlen \<bar>a\<bar> - bitlen b"
  have la: "\<bar>a\<bar> < 2 ^ nat (bitlen \<bar>a\<bar>)" using bitlen_bounds [OF a] by simp
  have lb: "2 ^ nat (bitlen b - 1) \<le> b" using bitlen_bounds [OF b] by simp
  have ba: "0 \<le> bitlen \<bar>a\<bar>" by (rule bitlen_nonneg)
  have bb: "1 \<le> bitlen b" using b by (simp add: bitlen_alt_def)
  have "\<bar>q\<bar> = of_int \<bar>a\<bar> / of_int b" using b by (simp add: q)
  also have "\<dots> < 2 ^ nat (bitlen \<bar>a\<bar>) / 2 ^ nat (bitlen b - 1)"
  proof (rule frac_less)
    show "(of_int \<bar>a\<bar> :: rat) < 2 ^ nat (bitlen \<bar>a\<bar>)"
      using la by (metis of_int_less_iff of_int_numeral of_int_power)
    show "(2::rat) ^ nat (bitlen b - 1) \<le> of_int b"
      using lb by (metis of_int_le_iff of_int_numeral of_int_power)
  qed simp_all
  also have "\<dots> = 2 powi (bitlen \<bar>a\<bar>) / 2 powi (bitlen b - 1)"
    using ba bb by (simp add: power_int_def)
  also have "\<dots> = (2::rat) powi (bitlen \<bar>a\<bar> - (bitlen b - 1))"
    by (rule power_int_diff [symmetric]) simp
  also have "bitlen \<bar>a\<bar> - (bitlen b - 1) = d + 1" by (simp add: d_def)
  finally have up: "\<bar>q\<bar> < 2 powi (d + 1)" .
  show ?thesis
  proof (cases "2 powi d \<le> \<bar>q\<bar>")
    case True
    then show ?thesis using up ab by (simp add: ilog2_def d_def Let_def)
  next
    case False
    then show ?thesis using ab by (simp add: ilog2_def d_def Let_def)
  qed
qed

text \<open>
  A multiple of 1/2 of magnitude at most \<open>2 ^ 22\<close> is a float: rounding leaves it as
  it is. Every coordinate and velocity that the game computes from the constants of
  main.c is of this kind, as long as it stays within this magnitude.
\<close>

lemma round_float_exact:
  assumes half: "2 * q \<in> \<int>" and bound: "\<bar>q\<bar> \<le> 2 ^ 22"
  shows "round_float q = Finite q"
proof (cases "q = 0")
  case True
  then show ?thesis by (simp add: round_float_def)
next
  case False
  define e where "e = max (ilog2 q) (- 126)"
  have e: "e \<le> 22" "- 126 \<le> e"
    using ilog2_le [OF False bound] by (simp_all add: e_def)
  obtain k :: int where k: "2 * q = of_int k" using half by (auto elim: Ints_cases)
  have "q / 2 powi (e - 23) = q * 2 powi (23 - e)"
    by (simp add: power_int_diff field_simps)
  also have "(2::rat) powi (23 - e) = 2 * 2 ^ nat (22 - e)"
    using e by (simp add: power_int_def nat_diff_distrib flip: power_Suc)
  finally have sc: "q / 2 powi (e - 23) = of_int (k * 2 ^ nat (22 - e))"
    using k by (simp add: algebra_simps)
  have r: "of_int (round_half_even (q / 2 powi (e - 23))) * 2 powi (e - 23) = q"
    unfolding sc round_half_even_of_int using sc [symmetric] by simp
  have "\<bar>q\<bar> < 2 ^ 128" using bound by simp
  then have "\<not> 2 ^ 128 \<le> q" "\<not> q \<le> - (2 ^ 128)" by linarith+
  then show ?thesis
    using False r by (simp add: round_float_def Let_def flip: e_def)
qed

text \<open>
  Three values of the rounding: 0.1 becomes the float 13421773 / 2 ^ 27; the tie
  16777217 goes to the even significand below it, the tie 16777219 to the one above.
\<close>

lemma round_float_examples:
  "round_float (1 / 10) = Finite (13421773 / 134217728)"
  "round_float 16777217 = Finite 16777216"
  "round_float 16777219 = Finite 16777220"
  by code_simp+






section \<open>Properties of the projectile pool\<close>

lemma length_removeBullet [simp]: "length (removeBullet i bs) = length bs"
  by (simp add: removeBullet_def)

lemma length_addBullet [simp]: "length (addBullet x y dx bs) = length bs"
  by (simp add: addBullet_def Let_def)

lemma addBullet_found_full:
  "\<forall>i<MAX_BULLETS. bs ! i \<noteq> None \<Longrightarrow> addBullet_found bs = - 1"
  by (auto simp: addBullet_found_def find_None_iff split: option.splits)

lemma live_le_length: "live bs \<le> length bs"
  by (simp add: live_def)

lemma length_pool_apply [simp]: "length (pool_apply op bs) = length bs"
  by (cases op) simp_all

lemma length_fold_pool_apply: "length (fold pool_apply ops bs) = length bs"
  by (induction ops arbitrary: bs) simp_all

lemma MAX_BULLETS_Suc: "MAX_BULLETS = Suc 999"
  by (simp add: MAX_BULLETS_def)

lemma length_bullets_init [simp]: "length bullets_init = MAX_BULLETS"
  by (simp add: bullets_init_def)

lemma nth_bullets_init [simp]: "i < MAX_BULLETS \<Longrightarrow> bullets_init ! i = None"
  by (simp add: bullets_init_def)

lemma addBullet_bullets_init:
  "addBullet x y dx bullets_init =
     bullets_init[0 := Some \<lparr>bullet_x = x, bullet_y = y, bullet_dx = dx\<rparr>]"
proof -
  have pos: "0 < MAX_BULLETS" by (simp add: MAX_BULLETS_Suc)
  then have "[0..<MAX_BULLETS] = 0 # [Suc 0..<MAX_BULLETS]"
    by (rule upt_conv_Cons)
  then have "addBullet_found bullets_init = 0"
    using pos by (simp add: addBullet_found_def)
  then show ?thesis by (simp add: addBullet_def)
qed

lemma set_bullets_init_update:
  "set (bullets_init[0 := s]) = {s, None}"
proof -
  have "bullets_init[0 := s] = s # replicate 999 None"
    by (simp only: bullets_init_def MAX_BULLETS_Suc replicate_Suc list_update_code)
  then show ?thesis by simp
qed





text \<open>
  C1. Whatever spawns and despawns have been run from the empty pool, the array still
  has its \<open>MAX_BULLETS\<close> slots and so at most 1000 of them are live. A pool whose
  slots are all occupied holds exactly 1000 projectiles, and \<open>addBullet\<close> returns it
  as it is: no slot changes and nothing is added.
\<close>

theorem pool_capacity:
  "((\<forall>op \<in> set ops. pool_op_ok op) \<longrightarrow>
      length (pool_run ops) = MAX_BULLETS \<and> live (pool_run ops) \<le> 1000) \<and>
   (length bs = MAX_BULLETS \<and> (\<forall>i<MAX_BULLETS. bs ! i \<noteq> None) \<longrightarrow>
      live bs = 1000 \<and> addBullet x y dx bs = bs)"
proof -
  have len: "length (pool_run ops) = MAX_BULLETS"
    by (simp add: pool_run_def length_fold_pool_apply bullets_init_def)
  have "live (pool_run ops) \<le> MAX_BULLETS"
    using live_le_length [of "pool_run ops"] len by simp
  moreover have "addBullet x y dx bs = bs" if "\<forall>i<MAX_BULLETS. bs ! i \<noteq> None"
    using addBullet_found_full [OF that] by (simp add: addBullet_def)
  moreover have "live bs = 1000" if "length bs = MAX_BULLETS" "\<forall>i<MAX_BULLETS. bs ! i \<noteq> None"
  proof -
    have "filter (\<lambda>s. s \<noteq> None) bs = bs"
      using that by (auto simp: filter_id_conv in_set_conv_nth)
    then show ?thesis using that by (simp add: live_def MAX_BULLETS_def)
  qed
  ultimately show ?thesis using len by (simp add: MAX_BULLETS_def)
qed

theorem pool_capacity_witness:
  "list_all pool_op_ok [Spawn (Finite 85) (Finite 80) (Finite 3), Despawn 0] \<and>
   length (pool_run [Spawn (Finite 85) (Finite 80) (Finite 3), Despawn 0]) = MAX_BULLETS \<and>
   live (pool_run [Spawn (Finite 85) (Finite 80) (Finite 3), Despawn 0]) \<le> 1000 \<and>
   length (replicate 1000 (Some \<lparr>bullet_x = Finite 85, bullet_y = Finite 80, bullet_dx = Finite 3\<rparr>))
     = MAX_BULLETS \<and>
   None \<notin>
     set (replicate 1000 (Some \<lparr>bullet_x = Finite 85, bullet_y = Finite 80, bullet_dx = Finite 3\<rparr>)) \<and>
   live (replicate 1000 (Some \<lparr>bullet_x = Finite 85, bullet_y = Finite 80, bullet_dx = Finite 3\<rparr>))
     = 1000 \<and>
   addBullet (Finite 1) (Finite 2) (Finite (- 3))
     (replicate 1000 (Some \<lparr>bullet_x = Finite 85, bullet_y = Finite 80, bullet_dx = Finite 3\<rparr>))
     = replicate 1000 (Some \<lparr>bullet_x = Finite 85, bullet_y = Finite 80, bullet_dx = Finite 3\<rparr>)"
  using pool_capacity
    [of "[Spawn (Finite 85) (Finite 80) (Finite 3), Despawn 0]"
        "replicate 1000 (Some \<lparr>bullet_x = Finite 85, bullet_y = Finite 80, bullet_dx = Finite 3\<rparr>)"
        "Finite 1" "Finite 2" "Finite (- 3)"]
  by (simp add: pool_op_ok_def MAX_BULLETS_def)

text \<open>
  C9. For a slot \<open>i\<close> of the array, \<open>removeBullet\<close> leaves slot \<open>i\<close> empty, a second
  call leaves it empty again and changes nothing, a call on an empty slot returns the
  pool as it is, and no other slot is touched by either call. \<open>removeBullet\<close> is a
  total function: there is no error for it to return.
\<close>

theorem removeBullet_idempotent:
  "length bs = MAX_BULLETS \<and> i < MAX_BULLETS \<longrightarrow>
     removeBullet i bs ! i = None \<and>
     removeBullet i (removeBullet i bs) ! i = None \<and>
     removeBullet i (removeBullet i bs) = removeBullet i bs \<and>
     (bs ! i = None \<longrightarrow> removeBullet i bs = bs) \<and>
     length (removeBullet i bs) = MAX_BULLETS \<and>
     (\<forall>j<MAX_BULLETS. j \<noteq> i \<longrightarrow>
        removeBullet i bs ! j = bs ! j \<and> removeBullet i (removeBullet i bs) ! j = bs ! j)"
  by (auto simp: removeBullet_def)

theorem removeBullet_idempotent_witness:
  "length ((replicate 1000 None)[3 := Some \<lparr>bullet_x = Finite 85, bullet_y = Finite 80, bullet_dx = Finite 3\<rparr>])
     = MAX_BULLETS \<and> 3 < MAX_BULLETS \<and>
   removeBullet 3 ((replicate 1000 None)[3 := Some \<lparr>bullet_x = Finite 85, bullet_y = Finite 80, bullet_dx = Finite 3\<rparr>]) ! 3 = None \<and>
   removeBullet 3 (removeBullet 3 ((replicate 1000 None)[3 := Some \<lparr>bullet_x = Finite 85, bullet_y = Finite 80, bullet_dx = Finite 3\<rparr>]))
     = removeBullet 3 ((replicate 1000 None)[3 := Some \<lparr>bullet_x = Finite 85, bullet_y = Finite 80, bullet_dx = Finite 3\<rparr>])"
  using removeBullet_idempotent
    [of "(replicate 1000 None)[3 := Some \<lparr>bullet_x = Finite 85, bullet_y = Finite 80, bullet_dx = Finite 3\<rparr>]" 3]
  by (simp add: MAX_BULLETS_def)

section \<open>Properties of updateLogic\<close>

lemma collides_alive [simp]: "collides b (e\<lparr>alive := a\<rparr>) = collides b e"
  by (simp add: collides_def)

lemma slot_hits_alive [simp]: "slot_hits (e\<lparr>alive := a\<rparr>) s = slot_hits e s"
  by (simp add: slot_hits_def split: option.splits)

lemma updateBullet_eq:
  assumes "i < length (bullets w)"
  shows "updateBullet i w =
     w\<lparr>bullets := (bullets w)[i := slot_after (bullets w ! i)],
       enemy := (if slot_hits (enemy w) (bullets w ! i) then (enemy w)\<lparr>alive := 0\<rparr> else enemy w)\<rparr>"
proof (cases "bullets w ! i")
  case None
  then have "(bullets w)[i := None] = bullets w"
    by (metis list_update_id)
  with None show ?thesis
    by (simp add: updateBullet_def slot_after_def slot_hits_def)
next
  case (Some b)
  with assms show ?thesis
    by (simp add: updateBullet_def slot_after_def slot_hits_def removeBullet_def Let_def)
qed

lemma fold_updateBullet:
  assumes "distinct js" "\<forall>i\<in>set js. i < length (bullets w)"
  shows "fold updateBullet js w =
     w\<lparr>bullets := map (\<lambda>j. if j \<in> set js then slot_after (bullets w ! j) else bullets w ! j)
                    [0..<length (bullets w)],
       enemy := (if \<exists>i\<in>set js. slot_hits (enemy w) (bullets w ! i)
                 then (enemy w)\<lparr>alive := 0\<rparr> else enemy w)\<rparr>"
  using assms
proof (induction js rule: rev_induct)
  case Nil
  then show ?case by (simp add: map_nth)
next
  case (snoc i js)
  let ?w = "fold updateBullet js w"
  from snoc.prems have d: "distinct js" "i \<notin> set js" and
    lt: "\<forall>i\<in>set js. i < length (bullets w)" "i < length (bullets w)"
    by auto
  note IH = snoc.IH [OF d(1) lt(1)]
  have len: "length (bullets ?w) = length (bullets w)" by (simp add: IH)
  have at: "bullets ?w ! i = bullets w ! i" using d lt by (simp add: IH)
  have hit: "slot_hits (enemy ?w) s = slot_hits (enemy w) s" for s by (simp add: IH)
  have "fold updateBullet (js @ [i]) w = updateBullet i ?w" by simp
  also have "\<dots> = ?w\<lparr>bullets := (bullets ?w)[i := slot_after (bullets w ! i)],
       enemy := (if slot_hits (enemy w) (bullets w ! i) then (enemy ?w)\<lparr>alive := 0\<rparr> else enemy ?w)\<rparr>"
    using updateBullet_eq [of i ?w] lt len by (simp add: at hit)
  also have "\<dots> = w\<lparr>bullets := (bullets ?w)[i := slot_after (bullets w ! i)],
       enemy := (if slot_hits (enemy w) (bullets w ! i) then (enemy ?w)\<lparr>alive := 0\<rparr> else enemy ?w)\<rparr>"
    by (subst (3) IH) simp
  also have "(bullets ?w)[i := slot_after (bullets w ! i)] =
     map (\<lambda>j. if j \<in> set (js @ [i]) then slot_after (bullets w ! j) else bullets w ! j)
       [0..<length (bullets w)]"
  proof (rule nth_equalityI)
    show "length ((bullets ?w)[i := slot_after (bullets w ! i)]) =
      length (map (\<lambda>j. if j \<in> set (js @ [i]) then slot_after (bullets w ! j) else bullets w ! j)
       [0..<length (bullets w)])"
      by (simp add: IH)
  next
    fix k
    assume "k < length ((bullets ?w)[i := slot_after (bullets w ! i)])"
    then have k: "k < length (bullets w)" by (simp add: IH)
    show "(bullets ?w)[i := slot_after (bullets w ! i)] ! k =
      map (\<lambda>j. if j \<in> set (js @ [i]) then slot_after (bullets w ! j) else bullets w ! j)
       [0..<length (bullets w)] ! k"
    proof (cases "k = i")
      case True
      then show ?thesis using k by (simp add: IH)
    next
      case False
      then show ?thesis using k by (simp add: IH)
    qed
  qed
  also have "(if slot_hits (enemy w) (bullets w ! i) then (enemy ?w)\<lparr>alive := 0\<rparr> else enemy ?w) =
     (if \<exists>i\<in>set (js @ [i]). slot_hits (enemy w) (bullets w ! i)
                 then (enemy w)\<lparr>alive := 0\<rparr> else enemy w)"
    by (auto simp: IH)
  finally show ?case .
qed

lemma updateBullets_eq:
  assumes "length (bullets w) = MAX_BULLETS"
  shows "updateBullets w =
     w\<lparr>bullets := map slot_after (bullets w),
       enemy := (if \<exists>s\<in>set (bullets w). slot_hits (enemy w) s
                 then (enemy w)\<lparr>alive := 0\<rparr> else enemy w)\<rparr>"
proof -
  have m: "map (\<lambda>j. if j \<in> set [0..<MAX_BULLETS] then slot_after (bullets w ! j) else bullets w ! j)
                    [0..<length (bullets w)] = map slot_after (bullets w)"
    unfolding assms [symmetric] by (intro nth_equalityI) auto
  have h: "(\<exists>i\<in>set [0..<MAX_BULLETS]. slot_hits (enemy w) (bullets w ! i)) \<longleftrightarrow>
      (\<exists>s\<in>set (bullets w). slot_hits (enemy w) s)"
    unfolding assms [symmetric] by (simp add: Bex_def in_set_conv_nth) blast
  have "fold updateBullet [0..<MAX_BULLETS] w =
     w\<lparr>bullets := map (\<lambda>j. if j \<in> set [0..<MAX_BULLETS] then slot_after (bullets w ! j) else bullets w ! j)
                    [0..<length (bullets w)],
       enemy := (if \<exists>i\<in>set [0..<MAX_BULLETS]. slot_hits (enemy w) (bullets w ! i)
                 then (enemy w)\<lparr>alive := 0\<rparr> else enemy w)\<rparr>"
    by (rule fold_updateBullet) (simp_all add: assms)
  then show ?thesis
    by (simp only: updateBullets_def m h)
qed


lemma updateBullet_frame [simp]:
  "man (updateBullet i w) = man w"
  "globalTime (updateBullet i w) = globalTime w"
  "bulletTexture (updateBullet i w) = bulletTexture w"
  "backgroundTexture (updateBullet i w) = backgroundTexture w"
  by (simp_all add: updateBullet_def Let_def split: option.splits)

lemma updateBullet_enemy:
  "enemy (updateBullet i w) = enemy w \<or> enemy (updateBullet i w) = (enemy w)\<lparr>alive := 0\<rparr>"
  by (simp add: updateBullet_def Let_def split: option.splits)

lemma updateBullets_frame [simp]:
  "man (updateBullets w) = man w"
  "globalTime (updateBullets w) = globalTime w"
  "bulletTexture (updateBullets w) = bulletTexture w"
  "backgroundTexture (updateBullets w) = backgroundTexture w"
proof -
  have "man (fold updateBullet js w) = man w \<and> globalTime (fold updateBullet js w) = globalTime w \<and>
    bulletTexture (fold updateBullet js w) = bulletTexture w \<and>
    backgroundTexture (fold updateBullet js w) = backgroundTexture w" for js
    by (induction js arbitrary: w) simp_all
  then show "man (updateBullets w) = man w"
  "globalTime (updateBullets w) = globalTime w"
  "bulletTexture (updateBullets w) = bulletTexture w"
  "backgroundTexture (updateBullets w) = backgroundTexture w"
    by (simp_all add: updateBullets_def)
qed

lemma updateBullets_enemy:
  "enemy (updateBullets w) = enemy w \<or> enemy (updateBullets w) = (enemy w)\<lparr>alive := 0\<rparr>"
proof -
  have "enemy (fold updateBullet js w) = enemy w \<or>
      enemy (fold updateBullet js w) = (enemy w)\<lparr>alive := 0\<rparr>" for js
  proof (induction js arbitrary: w)
    case Nil
    then show ?case by simp
  next
    case (Cons j js)
    show ?case
      using Cons.IH [of "updateBullet j w"] updateBullet_enemy [of j w] by auto
  qed
  then show ?thesis by (simp add: updateBullets_def)
qed

lemma alive_updateEnemy [simp]: "alive (updateEnemy t e) = alive e"
  by (simp add: updateEnemy_def Let_def)

lemma pos_updateEnemy [simp]:
  "man_x (updateEnemy t e) = man_x e" "man_y (updateEnemy t e) = man_y e"
  by (simp_all add: updateEnemy_def Let_def)

lemma updateLogic_man [simp]: "man (updateLogic w) = updateMan (man w)"
  by (simp add: updateLogic_def Let_def)

lemma updateLogic_globalTime [simp]: "globalTime (updateLogic w) = globalTime w + 1"
  by (simp add: updateLogic_def Let_def)

lemma updateLogic_enemy_pos [simp]:
  "man_x (enemy (updateLogic w)) = man_x (enemy w)"
  "man_y (enemy (updateLogic w)) = man_y (enemy w)"
  using updateBullets_enemy [of "w\<lparr>man := updateMan (man w)\<rparr>"]
  by (auto simp: updateLogic_def Let_def)

lemma updateLogic_dead:
  "alive (enemy w) = 0 \<Longrightarrow> alive (enemy (updateLogic w)) = 0"
  using updateBullets_enemy [of "w\<lparr>man := updateMan (man w)\<rparr>"]
  by (auto simp: updateLogic_def Let_def)

lemma updateLogic_bullets:
  "length (bullets w) = MAX_BULLETS \<Longrightarrow> bullets (updateLogic w) = map slot_after (bullets w)"
  by (simp add: updateLogic_def Let_def updateBullets_eq)

lemma updateLogic_alive:
  "length (bullets w) = MAX_BULLETS \<Longrightarrow>
   alive (enemy (updateLogic w)) =
     (if \<exists>s\<in>set (bullets w). slot_hits (enemy w) s then 0 else alive (enemy w))"
  by (simp add: updateLogic_def Let_def updateBullets_eq)

lemma processEvents_enemy [simp]: "enemy (snd (processEvents window evs state w)) = enemy w"
  by (simp add: processEvents_def processJump_def processFire_def processMove_def fireShot_def
      Let_def)

lemma processEvents_globalTime [simp]:
  "globalTime (snd (processEvents window evs state w)) = globalTime w"
  by (simp add: processEvents_def processJump_def processFire_def processMove_def fireShot_def
      Let_def)

lemma frame_dead: "alive (enemy w) = 0 \<Longrightarrow> alive (enemy (frame window inp w)) = 0"
  by (simp add: frame_def updateLogic_dead)

lemma frames_dead: "alive (enemy w) = 0 \<Longrightarrow> alive (enemy (frames window inps w)) = 0"
  unfolding frames_def by (induction inps arbitrary: w) (simp_all add: frame_dead)

text \<open>
  C8. Once the enemy's \<open>alive\<close> is 0 it stays 0: through the collision test of any
  slot, through a whole \<open>updateLogic\<close>, through \<open>processEvents\<close>, and through any
  number of passes of the main loop, whatever the input.
\<close>

theorem enemy_stays_dead:
  "alive (enemy w) = 0 \<longrightarrow>
     alive (enemy (updateBullet i w)) = 0 \<and>
     alive (enemy (updateLogic w)) = 0 \<and>
     alive (enemy (snd (processEvents window evs state w))) = 0 \<and>
     alive (enemy (frames window inps w)) = 0"
  using updateBullet_enemy [of i w]
  by (auto simp: updateLogic_dead frames_dead)

theorem enemy_stays_dead_witness:
  "alive (enemy (main_world\<lparr>enemy := (enemy main_world)\<lparr>alive := 0\<rparr>\<rparr>)) = 0 \<and>
   alive (enemy (updateLogic (main_world\<lparr>enemy := (enemy main_world)\<lparr>alive := 0\<rparr>\<rparr>))) = 0 \<and>
   alive (enemy (frames True
     [([], \<lparr>SCANCODE_LEFT = False, SCANCODE_RIGHT = False, SCANCODE_SPACE = True,
            SCANCODE_UP = False, SCANCODE_DOWN = False\<rparr>)]
     (main_world\<lparr>enemy := (enemy main_world)\<lparr>alive := 0\<rparr>\<rparr>))) = 0"
  using enemy_stays_dead
    [of "main_world\<lparr>enemy := (enemy main_world)\<lparr>alive := 0\<rparr>\<rparr>" 0 True "[]"
        "\<lparr>SCANCODE_LEFT = False, SCANCODE_RIGHT = False, SCANCODE_SPACE = True,
            SCANCODE_UP = False, SCANCODE_DOWN = False\<rparr>"
        "[([], \<lparr>SCANCODE_LEFT = False, SCANCODE_RIGHT = False, SCANCODE_SPACE = True,
            SCANCODE_UP = False, SCANCODE_DOWN = False\<rparr>)]"]
  by simp

lemma flt_between:
  assumes "flt (Finite lo) f" "flt f (Finite hi)"
  obtains q where "f = Finite q" "lo < q" "q < hi"
  using assms by (cases f) simp_all

lemma collides_box:
  assumes "man_x e = Finite 250" "man_y e = Finite 60"
  shows "collides b e \<longleftrightarrow>
     flt (Finite 250) (bullet_x b) \<and> flt (bullet_x b) (Finite 290) \<and>
     flt (Finite 60) (bullet_y b) \<and> flt (bullet_y b) (Finite 110)"
  using assms by (simp add: collides_def fgt_def round_float_exact)

lemma collides_in_range:
  assumes "collides b e" "man_x e = Finite 250"
  shows "\<not> outOfRange b"
proof -
  have "fadd (Finite 250) (Finite 40) = Finite 290" by (simp add: round_float_exact)
  with assms have "flt (Finite 250) (bullet_x b)" "flt (bullet_x b) (Finite 290)"
    by (simp_all add: collides_def fgt_def)
  then obtain q where "bullet_x b = Finite q" "250 < q" "q < 290" by (rule flt_between)
  then show ?thesis by (simp add: outOfRange_def fgt_def)
qed

text \<open>
  C7. With the enemy at the x-coordinate 250 where \<open>main\<close> puts it (nothing ever
  moves it), a live bullet in slot \<open>i\<close> is moved by its \<open>dx\<close>, with \<open>y\<close> and \<open>dx\<close>
  kept; after \<open>updateLogic\<close> the slot is empty exactly when the moved \<open>x\<close> is below
  -1000 or above 1000, and holds the moved bullet otherwise. When the moved bullet is
  inside the enemy's box it stays in its slot, and the loop over the bullets changes
  only the enemy's \<open>alive\<close>, to 0.
\<close>

theorem bullet_passes_through_enemy:
  "length (bullets w) = MAX_BULLETS \<and> i < MAX_BULLETS \<and> bullets w ! i = Some b \<and>
   man_x (enemy w) = Finite 250 \<longrightarrow>
     moveBullet b =
       \<lparr>bullet_x = fadd (bullet_x b) (bullet_dx b), bullet_y = bullet_y b, bullet_dx = bullet_dx b\<rparr> \<and>
     (bullets (updateLogic w) ! i = None \<longleftrightarrow>
        flt (bullet_x (moveBullet b)) (Finite (- 1000)) \<or>
        fgt (bullet_x (moveBullet b)) (Finite 1000)) \<and>
     (bullets (updateLogic w) ! i \<noteq> None \<longrightarrow> bullets (updateLogic w) ! i = Some (moveBullet b)) \<and>
     (collides (moveBullet b) (enemy w) \<longrightarrow>
        bullets (updateLogic w) ! i = Some (moveBullet b) \<and>
        enemy (updateBullets w) = (enemy w)\<lparr>alive := 0\<rparr> \<and>
        man (updateBullets w) = man w \<and>
        globalTime (updateBullets w) = globalTime w)"
proof (intro impI, elim conjE)
  assume len: "length (bullets w) = MAX_BULLETS" and i: "i < MAX_BULLETS"
    and b: "bullets w ! i = Some b" and ex: "man_x (enemy w) = Finite 250"
  have at: "bullets (updateLogic w) ! i = slot_after (Some b)"
    using len i b by (simp add: updateLogic_bullets)
  have mem: "Some b \<in> set (bullets w)"
    using len i b by (metis nth_mem)
  have hit: "enemy (updateBullets w) = (enemy w)\<lparr>alive := 0\<rparr>" if "collides (moveBullet b) (enemy w)"
  proof -
    have "\<exists>s\<in>set (bullets w). slot_hits (enemy w) s"
      using mem that by (auto simp: slot_hits_def intro!: bexI [of _ "Some b"])
    then show ?thesis by (simp add: updateBullets_eq [OF len])
  qed
  show "moveBullet b =
       \<lparr>bullet_x = fadd (bullet_x b) (bullet_dx b), bullet_y = bullet_y b, bullet_dx = bullet_dx b\<rparr> \<and>
     (bullets (updateLogic w) ! i = None \<longleftrightarrow>
        flt (bullet_x (moveBullet b)) (Finite (- 1000)) \<or>
        fgt (bullet_x (moveBullet b)) (Finite 1000)) \<and>
     (bullets (updateLogic w) ! i \<noteq> None \<longrightarrow> bullets (updateLogic w) ! i = Some (moveBullet b)) \<and>
     (collides (moveBullet b) (enemy w) \<longrightarrow>
        bullets (updateLogic w) ! i = Some (moveBullet b) \<and>
        enemy (updateBullets w) = (enemy w)\<lparr>alive := 0\<rparr> \<and>
        man (updateBullets w) = man w \<and>
        globalTime (updateBullets w) = globalTime w)"
    using collides_in_range [OF _ ex, of "moveBullet b"] hit
    by (auto simp: at slot_after_def outOfRange_def moveBullet_def)
qed

theorem bullet_passes_through_enemy_witness:
  "length (bullets (main_world\<lparr>bullets := bullets_init
      [0 := Some \<lparr>bullet_x = Finite 248, bullet_y = Finite 80, bullet_dx = Finite 3\<rparr>]\<rparr>))
     = MAX_BULLETS \<and>
   0 < MAX_BULLETS \<and>
   bullets (main_world\<lparr>bullets := bullets_init
      [0 := Some \<lparr>bullet_x = Finite 248, bullet_y = Finite 80, bullet_dx = Finite 3\<rparr>]\<rparr>) ! 0
     = Some \<lparr>bullet_x = Finite 248, bullet_y = Finite 80, bullet_dx = Finite 3\<rparr> \<and>
   man_x (enemy (main_world\<lparr>bullets := bullets_init
      [0 := Some \<lparr>bullet_x = Finite 248, bullet_y = Finite 80, bullet_dx = Finite 3\<rparr>]\<rparr>))
     = Finite 250 \<and>
   collides (moveBullet \<lparr>bullet_x = Finite 248, bullet_y = Finite 80, bullet_dx = Finite 3\<rparr>)
     (enemy (main_world\<lparr>bullets := bullets_init
      [0 := Some \<lparr>bullet_x = Finite 248, bullet_y = Finite 80, bullet_dx = Finite 3\<rparr>]\<rparr>)) \<and>
   bullets (updateLogic (main_world\<lparr>bullets := bullets_init
      [0 := Some \<lparr>bullet_x = Finite 248, bullet_y = Finite 80, bullet_dx = Finite 3\<rparr>]\<rparr>)) ! 0
     = Some \<lparr>bullet_x = Finite 251, bullet_y = Finite 80, bullet_dx = Finite 3\<rparr> \<and>
   alive (enemy (updateBullets (main_world\<lparr>bullets := bullets_init
      [0 := Some \<lparr>bullet_x = Finite 248, bullet_y = Finite 80, bullet_dx = Finite 3\<rparr>]\<rparr>))) = 0"
proof -
  let ?b = "\<lparr>bullet_x = Finite 248, bullet_y = Finite 80, bullet_dx = Finite 3\<rparr>"
  let ?w = "main_world\<lparr>bullets := bullets_init[0 := Some ?b]\<rparr>"
  have h: "length (bullets ?w) = MAX_BULLETS \<and> 0 < MAX_BULLETS \<and> bullets ?w ! 0 = Some ?b \<and>
      man_x (enemy ?w) = Finite 250"
    by (simp add: main_world_def main_init_def MAX_BULLETS_Suc)
  have mv: "moveBullet ?b = \<lparr>bullet_x = Finite 251, bullet_y = Finite 80, bullet_dx = Finite 3\<rparr>"
    by (simp add: moveBullet_def round_float_exact)
  have c: "collides (moveBullet ?b) (enemy ?w)"
    unfolding mv by (simp add: collides_box main_world_def main_init_def)
  from bullet_passes_through_enemy [of ?w 0 ?b] h c
  have "bullets (updateLogic ?w) ! 0 = Some (moveBullet ?b) \<and>
      enemy (updateBullets ?w) = (enemy ?w)\<lparr>alive := 0\<rparr>"
    by blast
  then have "bullets (updateLogic ?w) ! 0 = Some (moveBullet ?b) \<and>
      alive (enemy (updateBullets ?w)) = 0"
    by simp
  with h c show ?thesis unfolding mv by blast
qed

text \<open>
  The scenario of C2: the bullet (300, 20) with \<open>dx = 3\<close> alone in the pool. It keeps
  the height 20, outside the enemy's box, so it never collides; it is at
  \<open>300 + 3 * n\<close> after \<open>n\<close> ticks, up to 999 after 233 ticks, and the tick after that
  takes it to 1002 and frees its slot.
\<close>

lemma map_slot_after_bullets_init: "map slot_after bullets_init = bullets_init"
  by (simp add: bullets_init_def slot_after_def)

lemma updateLogic_single_bullet:
  assumes "bullets w = bullets_init[0 := s]"
  shows "bullets (updateLogic w) = bullets_init[0 := slot_after s]"
proof -
  have "length (bullets w) = MAX_BULLETS" by (simp add: assms)
  then show ?thesis
    by (simp add: updateLogic_bullets assms map_update map_slot_after_bullets_init)
qed

lemma nth_single_bullet:
  "i < MAX_BULLETS \<Longrightarrow> bullets_init[0 := s] ! i = (if i = 0 then s else None)"
  by (simp add: nth_list_update)

lemma scenario_300_20_inv:
  assumes "bullets w = addBullet (Finite 300) (Finite 20) (Finite 3) bullets_init"
    and "man_y (enemy w) = Finite 60"
  shows "(\<exists>s. bullets ((updateLogic ^^ n) w) = bullets_init[0 := s] \<and>
      (\<forall>b. s = Some b \<longrightarrow> bullet_y b = Finite 20)) \<and>
      man_y (enemy ((updateLogic ^^ n) w)) = Finite 60 \<and>
      alive (enemy ((updateLogic ^^ n) w)) = alive (enemy w)"
proof (induction n)
  case 0
  show ?case using assms by (auto simp: addBullet_bullets_init)
next
  case (Suc n)
  let ?v = "(updateLogic ^^ n) w"
  from Suc obtain s where s: "bullets ?v = bullets_init[0 := s]"
    "\<forall>b. s = Some b \<longrightarrow> bullet_y b = Finite 20" and y: "man_y (enemy ?v) = Finite 60"
    and a: "alive (enemy ?v) = alive (enemy w)"
    by blast
  have len: "length (bullets ?v) = MAX_BULLETS" by (simp add: s)
  have nohit: "\<not> slot_hits (enemy ?v) s"
    using s(2) y by (auto simp: slot_hits_def collides_def moveBullet_def fgt_def split: option.splits)
  have "bullets (updateLogic ?v) = bullets_init[0 := slot_after s]"
    using s(1) by (rule updateLogic_single_bullet)
  moreover have "\<forall>b. slot_after s = Some b \<longrightarrow> bullet_y b = Finite 20"
    using s(2) by (auto simp: slot_after_def moveBullet_def split: option.splits if_splits)
  moreover have "alive (enemy (updateLogic ?v)) = alive (enemy w)"
    using nohit by (simp add: updateLogic_alive [OF len] s set_bullets_init_update a) (simp add: slot_hits_def)
  ultimately show ?case using y by auto
qed

lemma scenario_300_20_no_collision:
  assumes "bullets w = addBullet (Finite 300) (Finite 20) (Finite 3) bullets_init"
    and "man_y (enemy w) = Finite 60"
    and "i < MAX_BULLETS" "bullets ((updateLogic ^^ n) w) ! i = Some b"
  shows "\<not> collides b (enemy w)"
proof -
  from scenario_300_20_inv [OF assms(1,2), of n] obtain s
    where s: "bullets ((updateLogic ^^ n) w) = bullets_init[0 := s]"
      "\<forall>b. s = Some b \<longrightarrow> bullet_y b = Finite 20"
    by blast
  from assms(3,4) have "s = Some b" by (simp add: s(1) nth_single_bullet split: if_splits)
  with s(2) have "bullet_y b = Finite 20" by simp
  then show ?thesis by (simp add: collides_def assms(2) fgt_def)
qed

lemma slot_after_exact:
  assumes "2 * (a + b) \<in> \<int>" "\<bar>a + b\<bar> \<le> 2 ^ 22"
  shows "slot_after (Some \<lparr>bullet_x = Finite a, bullet_y = y, bullet_dx = Finite b\<rparr>) =
     (if a + b < - 1000 \<or> 1000 < a + b then None
      else Some \<lparr>bullet_x = Finite (a + b), bullet_y = y, bullet_dx = Finite b\<rparr>)"
proof -
  have "round_float (a + b) = Finite (a + b)" using assms by (rule round_float_exact)
  then show ?thesis
    by (simp add: slot_after_def moveBullet_def outOfRange_def fgt_def)
qed

lemma scenario_300_20_flight:
  assumes "bullets w = addBullet (Finite 300) (Finite 20) (Finite 3) bullets_init"
  shows "n \<le> 233 \<Longrightarrow> bullets ((updateLogic ^^ n) w) =
      bullets_init[0 := Some \<lparr>bullet_x = Finite (300 + 3 * of_nat n), bullet_y = Finite 20,
                               bullet_dx = Finite 3\<rparr>]"
proof (induction n)
  case 0
  show ?case by (simp add: assms addBullet_bullets_init)
next
  case (Suc n)
  then have n: "n \<le> 232" by simp
  then have nr: "(of_nat n :: rat) \<le> 232" by simp
  define a :: rat where "a = 300 + 3 * of_nat n"
  have "a + 3 = of_int (303 + 3 * int n)" by (simp add: a_def)
  then have h: "2 * (a + 3) \<in> \<int>" by (metis Ints_of_int Ints_mult Ints_numeral)
  have m: "\<bar>a + 3\<bar> \<le> 2 ^ 22" using nr by (simp add: a_def)
  have q: "\<not> (a + 3 < - 1000 \<or> 1000 < a + 3)" using nr by (simp add: a_def)
  have sa: "slot_after (Some \<lparr>bullet_x = Finite a, bullet_y = Finite 20, bullet_dx = Finite 3\<rparr>) =
      Some \<lparr>bullet_x = Finite (a + 3), bullet_y = Finite 20, bullet_dx = Finite 3\<rparr>"
    using slot_after_exact [OF h m, of "Finite 20"] q by simp
  have a': "a + 3 = 300 + 3 * of_nat (Suc n)" by (simp add: a_def)
  have "bullets ((updateLogic ^^ n) w) =
      bullets_init[0 := Some \<lparr>bullet_x = Finite a, bullet_y = Finite 20, bullet_dx = Finite 3\<rparr>]"
    using Suc.IH n by (simp add: a_def)
  then have "bullets (updateLogic ((updateLogic ^^ n) w)) =
      bullets_init[0 := slot_after (Some \<lparr>bullet_x = Finite a, bullet_y = Finite 20, bullet_dx = Finite 3\<rparr>)]"
    by (rule updateLogic_single_bullet)
  then show ?case unfolding sa a' by simp
qed

lemma scenario_300_20_despawn:
  assumes "bullets w = addBullet (Finite 300) (Finite 20) (Finite 3) bullets_init"
  shows "234 \<le> n \<Longrightarrow> bullets ((updateLogic ^^ n) w) = bullets_init"
proof (induction n)
  case 0
  then show ?case by simp
next
  case (Suc n)
  have none: "bullets_init[0 := None] = bullets_init"
    by (metis nth_bullets_init list_update_id MAX_BULLETS_Suc zero_less_Suc)
  have step: "bullets ((updateLogic ^^ Suc n) w) = bullets_init[0 := slot_after s]"
    if "bullets ((updateLogic ^^ n) w) = bullets_init[0 := s]" for s
    using updateLogic_single_bullet [OF that] by simp
  show ?case
  proof (cases "n = 233")
    case True
    have le: "(233::nat) \<le> 233" by simp
    have h: "2 * ((300 + 3 * of_nat (233::nat)) + 3 :: rat) \<in> \<int>" by simp
    have m: "\<bar>(300 + 3 * of_nat (233::nat)) + 3 :: rat\<bar> \<le> 2 ^ 22" by simp
    have "slot_after (Some \<lparr>bullet_x = Finite (300 + 3 * of_nat (233::nat)), bullet_y = Finite 20,
                               bullet_dx = Finite 3\<rparr>) = None"
      using slot_after_exact [OF h m, of "Finite 20"] by simp
    with step [OF scenario_300_20_flight [OF assms le, folded True]] none
    show ?thesis by (simp add: True)
  next
    case False
    with Suc have "bullets ((updateLogic ^^ n) w) = bullets_init[0 := None]"
      by (simp add: none)
    from step [OF this] show ?thesis by (simp add: slot_after_def none)
  qed
qed

text \<open>
  C2, as stated, fails. The projectile of the scenario never enters the enemy's box:
  the enemy's \<open>alive\<close> is 1 after every number of ticks, no bullet is ever at a point
  where the collision test holds, and after 234 ticks the projectile has left the
  travel bound and the pool is empty again.
\<close>

theorem scenario_300_20_counterexample:
  "(\<forall>n. alive (enemy ((updateLogic ^^ n) scenario_world)) = 1) \<and>
   (\<forall>n. \<not> (\<exists>i b. i < MAX_BULLETS \<and> bullets ((updateLogic ^^ n) scenario_world) ! i = Some b \<and>
                collides b (enemy scenario_world))) \<and>
   bullets ((updateLogic ^^ 233) scenario_world) ! 0 =
     Some \<lparr>bullet_x = Finite 999, bullet_y = Finite 20, bullet_dx = Finite 3\<rparr> \<and>
   bullets ((updateLogic ^^ 234) scenario_world) = bullets_init"
proof -
  have b: "bullets scenario_world = addBullet (Finite 300) (Finite 20) (Finite 3) bullets_init"
    and y: "man_y (enemy scenario_world) = Finite 60"
    and a: "alive (enemy scenario_world) = 1"
    by (simp_all add: scenario_world_def main_world_def main_init_def)
  have 1: "alive (enemy ((updateLogic ^^ n) scenario_world)) = 1" for n
    using scenario_300_20_inv [OF b y, of n] a by simp
  have 2: "\<not> (\<exists>i b. i < MAX_BULLETS \<and> bullets ((updateLogic ^^ n) scenario_world) ! i = Some b \<and>
                collides b (enemy scenario_world))" for n
    using scenario_300_20_no_collision [OF b y] by blast
  have le: "(233::nat) \<le> 233" "(234::nat) \<le> 234" by simp_all
  have 3: "bullets ((updateLogic ^^ 233) scenario_world) ! 0 =
     Some \<lparr>bullet_x = Finite 999, bullet_y = Finite 20, bullet_dx = Finite 3\<rparr>"
    by (simp add: scenario_300_20_flight [OF b le(1)] MAX_BULLETS_Suc)
  have 4: "bullets ((updateLogic ^^ 234) scenario_world) = bullets_init"
    by (rule scenario_300_20_despawn [OF b le(2)])
  from 1 2 3 4 show ?thesis by blast
qed

text \<open>
  C2, amended. A bullet spawned at (300, 20) with \<open>dx = 3\<close> into the empty pool, the
  enemy at (250, 60): after one \<open>updateLogic\<close> the bullet is at (303, 20) and the
  enemy's \<open>alive\<close> is what it was; on no later tick does it collide, the enemy's
  \<open>alive\<close> never changes, and from tick 234 on the pool is empty. And in any state
  with the enemy there, a tick that moves a live bullet to a point strictly inside the
  box from 250 to 290 by 60 to 110 leaves the enemy's \<open>alive\<close> at 0.
\<close>

theorem scenario_300_20:
  "(bullets w = addBullet (Finite 300) (Finite 20) (Finite 3) bullets_init \<and>
    man_x (enemy w) = Finite 250 \<and> man_y (enemy w) = Finite 60 \<longrightarrow>
      bullets (updateLogic w) ! 0 =
        Some \<lparr>bullet_x = Finite 303, bullet_y = Finite 20, bullet_dx = Finite 3\<rparr> \<and>
      alive (enemy (updateLogic w)) = alive (enemy w) \<and>
      (\<forall>n. alive (enemy ((updateLogic ^^ n) w)) = alive (enemy w)) \<and>
      (\<forall>n i b. i < MAX_BULLETS \<and> bullets ((updateLogic ^^ n) w) ! i = Some b \<longrightarrow>
         \<not> collides b (enemy w)) \<and>
      (\<forall>n\<ge>234. bullets ((updateLogic ^^ n) w) = bullets_init)) \<and>
   (length (bullets v) = MAX_BULLETS \<and> i < MAX_BULLETS \<and> bullets v ! i = Some b \<and>
    man_x (enemy v) = Finite 250 \<and> man_y (enemy v) = Finite 60 \<and>
    bullet_x (moveBullet b) = Finite px \<and> bullet_y (moveBullet b) = Finite py \<and>
    250 < px \<and> px < 290 \<and> 60 < py \<and> py < 110 \<longrightarrow>
      alive (enemy (updateLogic v)) = 0)"
proof (intro conjI impI; elim conjE)
  assume bs: "bullets w = addBullet (Finite 300) (Finite 20) (Finite 3) bullets_init"
    and e: "man_x (enemy w) = Finite 250" "man_y (enemy w) = Finite 60"
  have le: "(1::nat) \<le> 233" by simp
  from scenario_300_20_flight [OF bs le]
  show "bullets (updateLogic w) ! 0 =
        Some \<lparr>bullet_x = Finite 303, bullet_y = Finite 20, bullet_dx = Finite 3\<rparr>"
    by (simp add: MAX_BULLETS_Suc)
  show "alive (enemy (updateLogic w)) = alive (enemy w)"
    using scenario_300_20_inv [OF bs e(2), of 1] by simp
  show "\<forall>n. alive (enemy ((updateLogic ^^ n) w)) = alive (enemy w)"
    using scenario_300_20_inv [OF bs e(2)] by blast
  show "\<forall>n i b. i < MAX_BULLETS \<and> bullets ((updateLogic ^^ n) w) ! i = Some b \<longrightarrow>
         \<not> collides b (enemy w)"
    using scenario_300_20_no_collision [OF bs e(2)] by blast
  show "\<forall>n\<ge>234. bullets ((updateLogic ^^ n) w) = bullets_init"
    using scenario_300_20_despawn [OF bs] by blast
next
  assume len: "length (bullets v) = MAX_BULLETS" and i: "i < MAX_BULLETS"
    and b: "bullets v ! i = Some b"
    and e: "man_x (enemy v) = Finite 250" "man_y (enemy v) = Finite 60"
    and p: "bullet_x (moveBullet b) = Finite px" "bullet_y (moveBullet b) = Finite py"
      "250 < px" "px < 290" "60 < py" "py < 110"
  have "Some b \<in> set (bullets v)" using len i b by (metis nth_mem)
  moreover have "slot_hits (enemy v) (Some b)"
    using p by (simp add: slot_hits_def collides_box [OF e])
  ultimately have "\<exists>s\<in>set (bullets v). slot_hits (enemy v) s" by blast
  then show "alive (enemy (updateLogic v)) = 0"
    by (simp add: updateLogic_alive [OF len])
qed

theorem scenario_300_20_witness:
  "bullets scenario_world = addBullet (Finite 300) (Finite 20) (Finite 3) bullets_init \<and>
   man_x (enemy scenario_world) = Finite 250 \<and>
   man_y (enemy scenario_world) = Finite 60 \<and>
   bullets (updateLogic scenario_world) ! 0 =
     Some \<lparr>bullet_x = Finite 303, bullet_y = Finite 20, bullet_dx = Finite 3\<rparr> \<and>
   alive (enemy (updateLogic scenario_world)) = 1 \<and>
   (\<forall>n. alive (enemy ((updateLogic ^^ n) scenario_world)) = 1) \<and>
   length (bullets (main_world\<lparr>bullets := bullets_init
      [0 := Some \<lparr>bullet_x = Finite 248, bullet_y = Finite 80, bullet_dx = Finite 3\<rparr>]\<rparr>))
     = MAX_BULLETS \<and>
   bullets (main_world\<lparr>bullets := bullets_init
      [0 := Some \<lparr>bullet_x = Finite 248, bullet_y = Finite 80, bullet_dx = Finite 3\<rparr>]\<rparr>) ! 0
     = Some \<lparr>bullet_x = Finite 248, bullet_y = Finite 80, bullet_dx = Finite 3\<rparr> \<and>
   moveBullet \<lparr>bullet_x = Finite 248, bullet_y = Finite 80, bullet_dx = Finite 3\<rparr>
     = \<lparr>bullet_x = Finite 251, bullet_y = Finite 80, bullet_dx = Finite 3\<rparr> \<and>
   alive (enemy (main_world\<lparr>bullets := bullets_init
      [0 := Some \<lparr>bullet_x = Finite 248, bullet_y = Finite 80, bullet_dx = Finite 3\<rparr>]\<rparr>)) = 1 \<and>
   alive (enemy (updateLogic (main_world\<lparr>bullets := bullets_init
      [0 := Some \<lparr>bullet_x = Finite 248, bullet_y = Finite 80, bullet_dx = Finite 3\<rparr>]\<rparr>))) = 0"
proof -
  let ?b = "\<lparr>bullet_x = Finite 248, bullet_y = Finite 80, bullet_dx = Finite 3\<rparr>"
  let ?v = "main_world\<lparr>bullets := bullets_init[0 := Some ?b]\<rparr>"
  have h1: "bullets scenario_world = addBullet (Finite 300) (Finite 20) (Finite 3) bullets_init \<and>
    man_x (enemy scenario_world) = Finite 250 \<and> man_y (enemy scenario_world) = Finite 60"
    and a: "alive (enemy scenario_world) = 1" "alive (enemy ?v) = 1"
    by (simp_all add: scenario_world_def main_world_def main_init_def)
  have mv: "moveBullet ?b = \<lparr>bullet_x = Finite 251, bullet_y = Finite 80, bullet_dx = Finite 3\<rparr>"
    by (simp add: moveBullet_def round_float_exact)
  have h2: "length (bullets ?v) = MAX_BULLETS \<and> 0 < MAX_BULLETS \<and> bullets ?v ! 0 = Some ?b \<and>
    man_x (enemy ?v) = Finite 250 \<and> man_y (enemy ?v) = Finite 60 \<and>
    bullet_x (moveBullet ?b) = Finite 251 \<and> bullet_y (moveBullet ?b) = Finite 80 \<and>
    (250::rat) < 251 \<and> (251::rat) < 290 \<and> (60::rat) < 80 \<and> (80::rat) < 110"
    unfolding mv by (simp add: main_world_def main_init_def MAX_BULLETS_Suc)
  note t = scenario_300_20 [of scenario_world ?v 0 ?b 251 80]
  from t [THEN conjunct1, THEN mp, OF h1] a(1)
  have c1: "bullets (updateLogic scenario_world) ! 0 =
     Some \<lparr>bullet_x = Finite 303, bullet_y = Finite 20, bullet_dx = Finite 3\<rparr> \<and>
   alive (enemy (updateLogic scenario_world)) = 1 \<and>
   (\<forall>n. alive (enemy ((updateLogic ^^ n) scenario_world)) = 1)"
    by simp
  from t [THEN conjunct2, THEN mp, OF h2]
  have c2: "alive (enemy (updateLogic ?v)) = 0" .
  from h1 h2 a mv c1 c2 show ?thesis by blast
qed

text \<open>Nothing in the loop of \<open>main\<close> moves the enemy.\<close>

lemma enemy_position_fixed:
  "man_x (enemy (frames window inps w)) = man_x (enemy w) \<and>
   man_y (enemy (frames window inps w)) = man_y (enemy w)"
  unfolding frames_def by (induction inps arbitrary: w) (simp_all add: frame_def)

lemma length_processEvents [simp]:
  "length (bullets (snd (processEvents window evs state w))) = length (bullets w)"
  by (simp add: processEvents_def processJump_def processFire_def processMove_def fireShot_def
      Let_def)

lemma length_frame:
  "length (bullets w) = MAX_BULLETS \<Longrightarrow> length (bullets (frame window inp w)) = MAX_BULLETS"
  by (simp add: frame_def updateLogic_bullets)

lemma length_frames:
  "length (bullets w) = MAX_BULLETS \<Longrightarrow> length (bullets (frames window inps w)) = MAX_BULLETS"
  unfolding frames_def by (induction inps arbitrary: w) (simp_all add: length_frame)

text \<open>
  In every state that the loop of \<open>main\<close> reaches, the pool has its \<open>MAX_BULLETS\<close>
  slots and the enemy is at (250, 60).
\<close>

lemma main_loop_invariants:
  "length (bullets (frames window inps (main_init dy0 walking0 shooting0 t1 t2 t3 t4))) =
     MAX_BULLETS \<and>
   man_x (enemy (frames window inps (main_init dy0 walking0 shooting0 t1 t2 t3 t4))) =
     Finite 250 \<and>
   man_y (enemy (frames window inps (main_init dy0 walking0 shooting0 t1 t2 t3 t4))) =
     Finite 60"
proof -
  let ?w = "main_init dy0 walking0 shooting0 t1 t2 t3 t4"
  have "length (bullets ?w) = MAX_BULLETS" by (simp add: main_init_def)
  then have "length (bullets (frames window inps ?w)) = MAX_BULLETS" by (rule length_frames)
  moreover have "man_x (enemy ?w) = Finite 250" "man_y (enemy ?w) = Finite 60"
    by (simp_all add: main_init_def)
  ultimately show ?thesis
    using enemy_position_fixed [of window inps ?w] by simp
qed

section \<open>Properties of processEvents\<close>

lemma walkFrame_flags [simp]:
  "walking (walkFrame t m) = walking m" "shooting (walkFrame t m) = shooting m"
  "facingLeft (walkFrame t m) = facingLeft m"
  by (simp_all add: walkFrame_def)

text \<open>
  C10. If \<open>walking\<close> and \<open>shooting\<close> are not both nonzero before \<open>processEvents\<close>,
  they are not both nonzero after it, whatever the events and the keys held.
\<close>

theorem walking_shooting_exclusive:
  "\<not> (walking (man w) \<noteq> 0 \<and> shooting (man w) \<noteq> 0) \<longrightarrow>
   \<not> (walking (man (snd (processEvents window evs state w))) \<noteq> 0 \<and>
      shooting (man (snd (processEvents window evs state w))) \<noteq> 0)"
  by (auto simp: processEvents_def processJump_def processFire_def processMove_def fireShot_def
      Let_def)

theorem walking_shooting_exclusive_witness:
  "\<not> (walking (man main_world) \<noteq> 0 \<and> shooting (man main_world) \<noteq> 0) \<and>
   \<not> (walking (man (snd (processEvents True []
          \<lparr>SCANCODE_LEFT = True, SCANCODE_RIGHT = False, SCANCODE_SPACE = True,
           SCANCODE_UP = False, SCANCODE_DOWN = False\<rparr> main_world))) \<noteq> 0 \<and>
      shooting (man (snd (processEvents True []
          \<lparr>SCANCODE_LEFT = True, SCANCODE_RIGHT = False, SCANCODE_SPACE = True,
           SCANCODE_UP = False, SCANCODE_DOWN = False\<rparr> main_world))) \<noteq> 0)"
  using walking_shooting_exclusive [of main_world True "[]"
          "\<lparr>SCANCODE_LEFT = True, SCANCODE_RIGHT = False, SCANCODE_SPACE = True,
           SCANCODE_UP = False, SCANCODE_DOWN = False\<rparr>"]
  by (simp add: main_world_def main_init_def)


lemma updateMan_flags [simp]:
  "walking (updateMan m) = walking m" "shooting (updateMan m) = shooting m"
  "facingLeft (updateMan m) = facingLeft m" "currentSprite (updateMan m) = currentSprite m"
  by (simp_all add: updateMan_def Let_def)














lemma filter_upt_Suc:
  "length (filter P [0..<Suc k]) = length (filter P [0..<k]) + (if P k then 1 else 0)"
  by simp






section \<open>The vertical motion of the man\<close>


lemma updateMan_exact:
  assumes "man_y m = Finite a" "man_dy m = Finite b" "2 * a \<in> \<int>" "2 * b \<in> \<int>"
    and "\<bar>a + b\<bar> \<le> 2 ^ 22" "\<bar>b + 1 / 2\<bar> \<le> 2 ^ 22"
  shows "updateMan m =
     (if 60 < a + b then m\<lparr>man_y := Finite 60, man_dy := Finite 0\<rparr>
      else m\<lparr>man_y := Finite (a + b), man_dy := Finite (b + 1 / 2)\<rparr>)"
proof -
  have "2 * (a + b) \<in> \<int>" using assms(3,4) by (simp add: distrib_left)
  then have y: "round_float (a + b) = Finite (a + b)"
    using assms(5) by (rule round_float_exact)
  have "2 * (b + 1 / 2) \<in> \<int>" using assms(4) by (simp add: distrib_left)
  then have d: "round_float (b + 1 / 2) = Finite (b + 1 / 2)"
    using assms(6) by (rule round_float_exact)
  show ?thesis
    by (simp add: updateMan_def Let_def assms(1,2) y d fgt_def)
qed












section \<open>The jump\<close>

text \<open>
  Lines 140-142: \<open>processEvents\<close> sets the velocity to -8 exactly when the up key is
  held and the velocity is zero, and never changes the vertical position.
\<close>

lemma processEvents_jump:
  "man_dy (man (snd (processEvents window evs state w))) =
     (if SCANCODE_UP state \<and> man_dy (man w) = Finite 0 then Finite (- 8) else man_dy (man w))"
  "man_y (man (snd (processEvents window evs state w))) = man_y (man w)"
  by (simp_all add: processEvents_def processJump_def processFire_def processMove_def fireShot_def
      walkFrame_def Let_def fis_zero_def)

lemma processEvents_upKeys:
  assumes "walking (man w) = 0" "shooting (man w) = 0"
  shows "walking (man (snd (processEvents window evs upKeys w))) = 0"
    and "shooting (man (snd (processEvents window evs upKeys w))) = 0"
  using assms
  by (simp_all add: processEvents_def processJump_def processFire_def processMove_def upKeys_def)

lemma frame_upKeys:
  assumes flags: "walking (man w) = 0" "shooting (man w) = 0"
    and pos: "man_y (man w) = Finite a" "man_dy (man w) = Finite b"
    and half: "2 * a \<in> \<int>" "2 * b \<in> \<int>"
    and bound: "\<bar>a\<bar> \<le> 1000" "\<bar>b\<bar> \<le> 1000"
    and b': "b' = (if b = 0 then - 8 else b)"
    and air: "a + b' \<le> 60"
  shows "walking (man (frame window (evs, upKeys) w)) = 0 \<and>
     shooting (man (frame window (evs, upKeys) w)) = 0 \<and>
     man_y (man (frame window (evs, upKeys) w)) = Finite (a + b') \<and>
     man_dy (man (frame window (evs, upKeys) w)) = Finite (b' + 1 / 2)"
proof -
  let ?m = "man (snd (processEvents window evs upKeys w))"
  have y: "man_y ?m = Finite a" by (simp add: processEvents_jump pos)
  have d: "man_dy ?m = Finite b'"
    by (simp add: processEvents_jump pos b' upKeys_def)
  have hb: "2 * b' \<in> \<int>" using half(2) by (simp add: b')
  have bb: "\<bar>b'\<bar> \<le> 1000" using bound(2) by (simp add: b')
  have "\<bar>a + b'\<bar> \<le> 2000" using bound(1) bb by linarith
  then have s1: "\<bar>a + b'\<bar> \<le> 2 ^ 22" by simp
  have "\<bar>b' + 1 / 2\<bar> \<le> 1001" using bb by linarith
  then have s2: "\<bar>b' + 1 / 2\<bar> \<le> 2 ^ 22" by simp
  have "updateMan ?m = ?m\<lparr>man_y := Finite (a + b'), man_dy := Finite (b' + 1 / 2)\<rparr>"
    using updateMan_exact [OF y d half(1) hb s1 s2] air by simp
  then show ?thesis
    using processEvents_upKeys [OF flags, of window evs] by (simp add: frame_def)
qed

lemma frames_replicate_Suc:
  "frames window (replicate (Suc k) inp) w = frame window inp (frames window (replicate k inp) w)"
  by (simp add: frames_def replicate_append_same [symmetric] del: replicate.simps replicate_Suc)

text \<open>
  With the up key held from the ground, the man jumps in the first pass; after pass
  \<open>k\<close>, for \<open>k\<close> from 1 to 16, his velocity is \<open>- 8 + k / 2\<close> and his position is
  \<open>60 - 8 * k + k * (k - 1) / 4\<close>, all of them floats.
\<close>

lemma jump_trajectory:
  "k \<le> 15 \<Longrightarrow>
   walking (man (frames window (replicate (Suc k) (evs, upKeys)) grounded_world)) = 0 \<and>
   shooting (man (frames window (replicate (Suc k) (evs, upKeys)) grounded_world)) = 0 \<and>
   (\<exists>a. man_y (man (frames window (replicate (Suc k) (evs, upKeys)) grounded_world)) = Finite a \<and>
        2 * a \<in> \<int> \<and> \<bar>a\<bar> \<le> 60 + 8 * of_nat (Suc k) \<and>
        a = 60 - 8 * of_nat (Suc k) + of_nat (Suc k) * of_nat k / 4) \<and>
   man_dy (man (frames window (replicate (Suc k) (evs, upKeys)) grounded_world)) =
     Finite (- 8 + of_nat (Suc k) / 2)"
proof (induction k)
  case 0
  have g: "walking (man grounded_world) = 0" "shooting (man grounded_world) = 0"
    "man_y (man grounded_world) = Finite 60" "man_dy (man grounded_world) = Finite 0"
    by (simp_all add: grounded_world_def main_world_def main_init_def)
  have "frames window (replicate (Suc 0) (evs, upKeys)) grounded_world =
      frame window (evs, upKeys) grounded_world"
    by (simp add: frames_def)
  moreover note frame_upKeys [OF g, of "- 8" window evs]
  ultimately show ?case by simp
next
  case (Suc k)
  let ?w = "frames window (replicate (Suc k) (evs, upKeys)) grounded_world"
  from Suc have k: "k \<le> 14" by simp
  then have kr: "(of_nat k :: rat) \<le> 14" by simp
  from Suc k obtain a where flags: "walking (man ?w) = 0" "shooting (man ?w) = 0"
    and y: "man_y (man ?w) = Finite a" and ha: "2 * a \<in> \<int>"
    and ba: "\<bar>a\<bar> \<le> 60 + 8 * of_nat (Suc k)"
    and a: "a = 60 - 8 * of_nat (Suc k) + of_nat (Suc k) * of_nat k / 4"
    and d: "man_dy (man ?w) = Finite (- 8 + of_nat (Suc k) / 2)"
    by auto
  define b :: rat where "b = - 8 + of_nat (Suc k) / 2"
  have "2 * b = of_int (int (Suc k) - 16)" by (simp add: b_def)
  then have hb: "2 * b \<in> \<int>" by (simp only: Ints_of_int)
  have b0: "b \<noteq> 0" "b < 0" "- 8 \<le> b" using kr by (simp_all add: b_def)
  have bb: "\<bar>b\<bar> \<le> 1000" using b0 by simp
  have ba': "\<bar>a\<bar> \<le> 1000" using ba kr by simp
  have "(of_nat (Suc k) :: rat) * of_nat k \<le> of_nat (Suc k) * 32"
    using kr by (intro mult_left_mono) simp_all
  then have air: "a + b \<le> 60" using b0 unfolding a by (simp add: field_simps)
  have step: "walking (man (frame window (evs, upKeys) ?w)) = 0 \<and>
     shooting (man (frame window (evs, upKeys) ?w)) = 0 \<and>
     man_y (man (frame window (evs, upKeys) ?w)) = Finite (a + b) \<and>
     man_dy (man (frame window (evs, upKeys) ?w)) = Finite (b + 1 / 2)"
    using flags y d [folded b_def] ha hb ba' bb _ air
    by (rule frame_upKeys) (simp add: b0)
  have "2 * (a + b) \<in> \<int>" using ha hb by (simp add: distrib_left)
  moreover have "\<bar>a + b\<bar> \<le> 60 + 8 * of_nat (Suc (Suc k))"
    using ba b0 by (simp add: abs_le_iff)
  moreover have "a + b = 60 - 8 * of_nat (Suc (Suc k)) + of_nat (Suc (Suc k)) * of_nat (Suc k) / 4"
    unfolding a b_def by (simp add: field_simps)
  moreover have "b + 1 / 2 = - 8 + of_nat (Suc (Suc k)) / 2"
    by (simp add: b_def field_simps)
  ultimately show ?case
    using step unfolding frames_replicate_Suc [of window "Suc k"] by simp
qed

text \<open>
  C5. The velocity test of line 140 does not tell the ground from the top of a jump.
  After 16 passes with the up key held from the ground the man is at position -8, in
  the air, with velocity exactly 0, and \<open>processEvents\<close> gives him the impulse -8 a
  second time.
\<close>

theorem double_jump_at_apex:
  "man_y (man grounded_world) = Finite 60 \<and>
   man_dy (man grounded_world) = Finite 0 \<and>
   man_dy (man (snd (processEvents True [] upKeys grounded_world))) = Finite (- 8) \<and>
   man_y (man (frames True (replicate 16 ([], upKeys)) grounded_world)) = Finite (- 8) \<and>
   man_dy (man (frames True (replicate 16 ([], upKeys)) grounded_world)) = Finite 0 \<and>
   man_dy (man (snd (processEvents True [] upKeys
       (frames True (replicate 16 ([], upKeys)) grounded_world)))) = Finite (- 8)"
proof -
  have g: "man_y (man grounded_world) = Finite 60" "man_dy (man grounded_world) = Finite 0"
    by (simp_all add: grounded_world_def main_world_def main_init_def)
  have s: "(16::nat) = Suc 15" by simp
  have le: "(15::nat) \<le> 15" by simp
  from jump_trajectory [OF le, of True "[]"]
  have apex: "man_y (man (frames True (replicate 16 ([], upKeys)) grounded_world)) = Finite (- 8)"
    "man_dy (man (frames True (replicate 16 ([], upKeys)) grounded_world)) = Finite 0"
    unfolding s by auto
  show ?thesis
    by (simp add: processEvents_jump g apex) (simp add: upKeys_def)
qed

section \<open>Properties of doRender\<close>

lemma renderBullets_none:
  assumes "\<forall>i<MAX_BULLETS. bullets w ! i = None"
  shows "renderBullets w = Some []"
proof -
  have "\<forall>i\<in>set js. bullets w ! i = None \<Longrightarrow>
      fold (\<lambda>i acc. calls_then acc (renderBullet (bulletTexture w) (bullets w ! i))) js acc =
        acc" for js acc
    by (induction js arbitrary: acc) (auto simp: renderBullet_def calls_then_def split: option.splits)
  then show ?thesis using assms by (simp add: renderBullets_def)
qed

lemma doRender_main_world:
  "doRender main_world =
     Some [SDL_SetRenderDrawColor 0 0 255 255, SDL_RenderClear,
           SDL_SetRenderDrawColor 255 255 255 255, SDL_RenderCopy 2 None None,
           SDL_RenderCopyEx 0 \<lparr>rect_x = 160, rect_y = 0, rect_w = 40, rect_h = 50\<rparr>
             \<lparr>rect_x = 50, rect_y = 0, rect_w = 40, rect_h = 50\<rparr> 0,
           SDL_RenderCopyEx 1 \<lparr>rect_x = 6400, rect_y = 0, rect_w = 40, rect_h = 50\<rparr>
             \<lparr>rect_x = 250, rect_y = 60, rect_w = 40, rect_h = 50\<rparr> 1,
           SDL_RenderPresent]"
proof -
  have "renderBullets main_world = Some []"
    by (rule renderBullets_none) (simp add: main_world_def main_init_def)
  then show ?thesis
    by (simp add: doRender_def calls_then_def renderWarrior_def renderEnemy_def main_world_def
        main_init_def INT_MIN_def INT_MAX_def)
qed

text \<open>
  What \<open>doRender\<close> calls, whenever it is defined: the four calls that draw the
  background, then the man's, then the enemy's, then the bullets', then
  \<open>SDL_RenderPresent\<close>. A visible man is drawn by one \<open>SDL_RenderCopyEx\<close> from the
  source box at \<open>40 * currentSprite\<close>; a visible enemy by one \<open>SDL_RenderCopyEx\<close> from
  the source box at \<open>40 * 40 * currentSprite\<close>; both boxes are 40 by 50, and so are
  the destination boxes.
\<close>

lemma doRender_calls:
  assumes "doRender w = Some cmds"
  shows "\<exists>ws es bs.
        cmds = [SDL_SetRenderDrawColor 0 0 255 255, SDL_RenderClear,
                SDL_SetRenderDrawColor 255 255 255 255,
                SDL_RenderCopy (backgroundTexture w) None None] @ ws @ es @ bs @
               [SDL_RenderPresent] \<and>
        renderBullets w = Some bs \<and>
        (if visible (man w) \<noteq> 0
         then \<exists>dst. ws = [SDL_RenderCopyEx (sheetTexture (man w))
                            \<lparr>rect_x = 40 * currentSprite (man w), rect_y = 0,
                               rect_w = 40, rect_h = 50\<rparr>
                            dst (facingLeft (man w))] \<and>
                    rect_w dst = 40 \<and> rect_h dst = 50
         else ws = []) \<and>
        (if visible (enemy w) \<noteq> 0
         then \<exists>dst. es = [SDL_RenderCopyEx (sheetTexture (enemy w))
                            \<lparr>rect_x = 1600 * currentSprite (enemy w), rect_y = 0,
                               rect_w = 40, rect_h = 50\<rparr>
                            dst (facingLeft (enemy w))] \<and>
                    rect_w dst = 40 \<and> rect_h dst = 50
         else es = [])"
proof -
  from assms obtain ws es bs where ws: "renderWarrior (man w) = Some ws"
    and es: "renderEnemy (enemy w) = Some es" and bs: "renderBullets w = Some bs"
    and cmds: "cmds = [SDL_SetRenderDrawColor 0 0 255 255, SDL_RenderClear,
                SDL_SetRenderDrawColor 255 255 255 255,
                SDL_RenderCopy (backgroundTexture w) None None] @ ws @ es @ bs @
               [SDL_RenderPresent]"
    by (auto simp: doRender_def calls_then_def split: option.splits)
  have w: "if visible (man w) \<noteq> 0
         then \<exists>dst. ws = [SDL_RenderCopyEx (sheetTexture (man w))
                            \<lparr>rect_x = 40 * currentSprite (man w), rect_y = 0,
                               rect_w = 40, rect_h = 50\<rparr>
                            dst (facingLeft (man w))] \<and>
                    rect_w dst = 40 \<and> rect_h dst = 50
         else ws = []"
    using ws by (auto simp: renderWarrior_def split: option.splits if_splits)
  have e: "if visible (enemy w) \<noteq> 0
         then \<exists>dst. es = [SDL_RenderCopyEx (sheetTexture (enemy w))
                            \<lparr>rect_x = 1600 * currentSprite (enemy w), rect_y = 0,
                               rect_w = 40, rect_h = 50\<rparr>
                            dst (facingLeft (enemy w))] \<and>
                    rect_w dst = 40 \<and> rect_h dst = 50
         else es = []"
    using es by (auto simp: renderEnemy_def split: option.splits if_splits)
  from cmds bs w e show ?thesis by blast
qed

text \<open>
  C6. The enemy is not drawn from the offset \<open>40 * currentSprite\<close>. In the first
  frame \<open>main\<close> renders, the man and the enemy are both at frame 4: the man is drawn
  from the source box at 160, which is \<open>40 * 4\<close>, and the enemy from the source box at
  6400, which is \<open>40 * 40 * 4\<close>.
\<close>

theorem doRender_enemy_offset:
  "doRender main_world =
     Some [SDL_SetRenderDrawColor 0 0 255 255, SDL_RenderClear,
           SDL_SetRenderDrawColor 255 255 255 255, SDL_RenderCopy 2 None None,
           SDL_RenderCopyEx 0 \<lparr>rect_x = 160, rect_y = 0, rect_w = 40, rect_h = 50\<rparr>
             \<lparr>rect_x = 50, rect_y = 0, rect_w = 40, rect_h = 50\<rparr> 0,
           SDL_RenderCopyEx 1 \<lparr>rect_x = 6400, rect_y = 0, rect_w = 40, rect_h = 50\<rparr>
             \<lparr>rect_x = 250, rect_y = 60, rect_w = 40, rect_h = 50\<rparr> 1,
           SDL_RenderPresent] \<and>
   sheetTexture (man main_world) = 0 \<and>
   40 * currentSprite (man main_world) = 160 \<and>
   sheetTexture (enemy main_world) = 1 \<and>
   40 * currentSprite (enemy main_world) = 160"
  using doRender_main_world
  by (simp add: main_world_def main_init_def)

end
